theory Spec2Isabelle
  imports Main
begin

section \<open>JavaScript values used by solver.js\<close>

text \<open>
  Grid cells are JavaScript numbers. The solver only ever stores integers, and
  \<open>parseInt\<close> can additionally produce \<open>NaN\<close>, so a cell is an integer or \<open>NaN\<close>.
  A grid is an array of arrays of such numbers.
\<close>

datatype jsnum = Num int | NaN

type_synonym grid = "jsnum list list"

text \<open>
  \<open>TypeError\<close> is what JavaScript throws when a property of \<open>undefined\<close> is read
  (\<open>grid[row][column]\<close> with \<open>grid[row]\<close> missing). \<open>OutOfFuel\<close> is not a JavaScript
  exception: it is the outcome of the model of the recursive \<open>solveGrid\<close> when the
  recursion is deeper than the given budget of nested calls.
\<close>

datatype error = TypeError | OutOfFuel

text \<open>The values the functions of solver.js return.\<close>

datatype jsvalue = JUndefined | JBool bool | JGrid grid

text \<open>\<open>xs[i]\<close>: reading past the end of an array gives \<open>undefined\<close> (here \<open>None\<close>).\<close>

definition index :: "'a list \<Rightarrow> nat \<Rightarrow> 'a option" where
  "index xs i = (if i < length xs then Some (xs ! i) else None)"

text \<open>\<open>grid[row][column]\<close>: throws when \<open>grid[row]\<close> is \<open>undefined\<close>.\<close>

definition cell :: "grid \<Rightarrow> nat \<Rightarrow> nat \<Rightarrow> error + jsnum option" where
  "cell grid row column =
     (case index grid row of
        None \<Rightarrow> Inl TypeError
      | Some r \<Rightarrow> Inr (index r column))"

text \<open>
  \<open>a === b\<close> on values that are numbers or \<open>undefined\<close>: \<open>NaN\<close> is not equal
  to itself, \<open>undefined\<close> is.
\<close>

definition strictEq :: "jsnum option \<Rightarrow> jsnum option \<Rightarrow> bool" where
  "strictEq a b = (a = b \<and> a \<noteq> Some NaN)"

text \<open>
  \<open>grid[row][column] = v\<close>. The solver writes only to a cell it has just read as 0,
  and to the same cell again after the recursive call, which hands the grid back
  unchanged (lemma \<open>solveGrid_restores\<close> below), so every write is within range.
\<close>

definition setCell :: "grid \<Rightarrow> nat \<Rightarrow> nat \<Rightarrow> jsnum \<Rightarrow> grid" where
  "setCell grid row column v = grid[row := (grid ! row)[column := v]]"

text \<open>
  A \<open>for\<close> loop whose body may \<open>return\<close>: the body tells whether it returns at this
  iteration, or throws. The loop's result is whether some iteration returned.
\<close>

fun exitsEarly :: "('a \<Rightarrow> error + bool) \<Rightarrow> 'a list \<Rightarrow> error + bool" where
  "exitsEarly body [] = Inr False"
| "exitsEarly body (x # xs) =
     (case body x of
        Inl e \<Rightarrow> Inl e
      | Inr hit \<Rightarrow> if hit then Inr True else exitsEarly body xs)"

section \<open>isValidPlacement\<close>

text \<open>\<open>number === grid[row][column]\<close> for an integer \<open>number\<close>.\<close>

definition cellIs :: "grid \<Rightarrow> nat \<Rightarrow> nat \<Rightarrow> int \<Rightarrow> error + bool" where
  "cellIs grid row column number =
     (case cell grid row column of
        Inl e \<Rightarrow> Inl e
      | Inr v \<Rightarrow> Inr (strictEq (Some (Num number)) v))"

text \<open>The cells of the 3x3 subgrid of (row, column), in the order the two loops visit them.\<close>

definition subgridCells :: "nat \<Rightarrow> nat \<Rightarrow> (nat \<times> nat) list" where
  "subgridCells row column =
     (let subgridRow = row div 3; subgridColumn = column div 3
      in List.product [subgridRow * 3 ..< subgridRow * 3 + 3]
                      [subgridColumn * 3 ..< subgridColumn * 3 + 3])"

definition isValidPlacement :: "grid \<Rightarrow> int \<Rightarrow> nat \<Rightarrow> nat \<Rightarrow> error + bool" where
  "isValidPlacement grid number row column =
     (case index grid row of
        None \<Rightarrow> Inl TypeError
      | Some r \<Rightarrow>
          if list_ex (\<lambda>numberInRow. Num number = numberInRow) r then Inr False
          else
            (case exitsEarly (\<lambda>i. cellIs grid i column number) [0..<9] of
               Inl e \<Rightarrow> Inl e
             | Inr inColumn \<Rightarrow>
                 if inColumn then Inr False
                 else
                   (case exitsEarly (\<lambda>(tempRow, tempColumn). cellIs grid tempRow tempColumn number)
                           (subgridCells row column) of
                      Inl e \<Rightarrow> Inl e
                    | Inr inSubgrid \<Rightarrow> Inr (\<not> inSubgrid))))"

section \<open>Serialising a grid: the template literal in solveGrid\<close>

text \<open>
  \<open>`${grid}`\<close> is \<open>grid.toString()\<close>: the rows joined by commas, each row being its
  numbers joined by commas, each number in decimal (integers below \<open>10^21\<close> in
  absolute value print without an exponent; larger ones are outside this model).
\<close>

fun decimal :: "nat \<Rightarrow> string" where
  "decimal n =
     (if n < 10 then [''0123456789'' ! n]
      else decimal (n div 10) @ [''0123456789'' ! (n mod 10)])"

declare decimal.simps [simp del]

fun numToString :: "jsnum \<Rightarrow> string" where
  "numToString (Num i) = (if i < 0 then CHR ''-'' # decimal (nat (- i)) else decimal (nat i))"
| "numToString NaN = ''NaN''"

fun join :: "string \<Rightarrow> string list \<Rightarrow> string" where
  "join sep [] = []"
| "join sep [x] = x"
| "join sep (x # y # ys) = x @ sep @ join sep (y # ys)"

definition toString :: "grid \<Rightarrow> string" where
  "toString grid = join '','' (map (\<lambda>row. join '','' (map numToString row)) grid)"

section \<open>solveGrid\<close>

text \<open>The 81 positions in the order of the two outer loops.\<close>

definition positions :: "(nat \<times> nat) list" where
  "positions = List.product [0..<9] [0..<9]"

text \<open>The two outer loops up to the first cell holding 0.\<close>

fun findEmpty :: "grid \<Rightarrow> (nat \<times> nat) list \<Rightarrow> error + (nat \<times> nat) option" where
  "findEmpty grid [] = Inr None"
| "findEmpty grid ((row, column) # rest) =
     (case cellIs grid row column 0 of
        Inl e \<Rightarrow> Inl e
      | Inr isZero \<Rightarrow> if isZero then Inr (Some (row, column)) else findEmpty grid rest)"

text \<open>
  The loop over \<open>numberToTry\<close>. The state is the caller's grid, mutated in place, and
  the global \<open>gridPrimitive\<close> (\<open>None\<close> while it is \<open>undefined\<close>); \<open>solve\<close> is the recursive
  call. After the recursive call the cell is set back to 0 and the loop goes on
  with the next number, whatever the call did.
\<close>

fun tryNumbers ::
  "(grid \<Rightarrow> string option \<Rightarrow> error + jsvalue \<times> grid \<times> string option) \<Rightarrow>
   nat \<Rightarrow> nat \<Rightarrow> int list \<Rightarrow> grid \<Rightarrow> string option \<Rightarrow> error + grid \<times> string option" where
  "tryNumbers solve row column [] grid gridPrimitive = Inr (grid, gridPrimitive)"
| "tryNumbers solve row column (numberToTry # rest) grid gridPrimitive =
     (case isValidPlacement grid numberToTry row column of
        Inl e \<Rightarrow> Inl e
      | Inr valid \<Rightarrow>
          if valid then
            (case solve (setCell grid row column (Num numberToTry)) gridPrimitive of
               Inl e \<Rightarrow> Inl e
             | Inr (_, grid', gridPrimitive') \<Rightarrow>
                 tryNumbers solve row column rest (setCell grid' row column (Num 0)) gridPrimitive')
          else tryNumbers solve row column rest grid gridPrimitive)"

text \<open>
  \<open>solveGrid fuel grid gridPrimitive\<close>: the first argument bounds the number of nested
  calls (stack frames); the result is the returned value, the grid and the global
  after the call. When an exception is thrown the state is not reported.
\<close>

primrec solveGrid ::
  "nat \<Rightarrow> grid \<Rightarrow> string option \<Rightarrow> error + jsvalue \<times> grid \<times> string option" where
  "solveGrid 0 grid gridPrimitive = Inl OutOfFuel"
| "solveGrid (Suc fuel) grid gridPrimitive =
     (case findEmpty grid positions of
        Inl e \<Rightarrow> Inl e
      | Inr None \<Rightarrow> Inr (JUndefined, grid, Some (toString grid))
      | Inr (Some (row, column)) \<Rightarrow>
          (case tryNumbers (solveGrid fuel) row column [1..9] grid gridPrimitive of
             Inl e \<Rightarrow> Inl e
           | Inr (grid', gridPrimitive') \<Rightarrow> Inr (JUndefined, grid', gridPrimitive')))"

section \<open>gridPrimitiveToArray\<close>

text \<open>\<open>string.split(',')\<close>: always at least one piece.\<close>

fun js_split :: "char \<Rightarrow> string \<Rightarrow> string list" where
  "js_split sep [] = [[]]"
| "js_split sep (ch # rest) =
     (if ch = sep then [] # js_split sep rest
      else (case js_split sep rest of
              [] \<Rightarrow> [[ch]]
            | w # ws \<Rightarrow> (ch # w) # ws))"

text \<open>
  \<open>parseInt\<close> with no radix: leading white space is skipped, then an optional sign,
  then an optional \<open>0x\<close> prefix selecting radix 16, then the longest run of digits;
  no digit at all gives \<open>NaN\<close>. \<open>parseInt(undefined)\<close> parses the text "undefined".
\<close>

definition isWhiteSpace :: "char \<Rightarrow> bool" where
  "isWhiteSpace ch = (ch \<in> set [CHR 0x09, CHR 0x0A, CHR 0x0B, CHR 0x0C, CHR 0x0D, CHR 0x20])"

definition digitValue :: "char \<Rightarrow> nat option" where
  "digitValue ch =
     map_of (zip ''0123456789abcdef'' [0..<16] @ zip ''ABCDEF'' [10..<16]) ch"

fun parseDigits :: "nat \<Rightarrow> string \<Rightarrow> nat option \<Rightarrow> nat option" where
  "parseDigits radix [] acc = acc"
| "parseDigits radix (ch # rest) acc =
     (case digitValue ch of
        None \<Rightarrow> acc
      | Some d \<Rightarrow>
          if d < radix
          then parseDigits radix rest (Some (radix * (case acc of None \<Rightarrow> 0 | Some a \<Rightarrow> a) + d))
          else acc)"

definition parseInt :: "string option \<Rightarrow> jsnum" where
  "parseInt input =
     (let s = (case input of None \<Rightarrow> ''undefined'' | Some str \<Rightarrow> str);
          t = dropWhile isWhiteSpace s;
          (negative, u) =
             (case t of
                [] \<Rightarrow> (False, t)
              | ch # r \<Rightarrow> if ch = CHR ''-'' then (True, r)
                          else if ch = CHR ''+'' then (False, r) else (False, t));
          (radix, v) =
             (case u of
                a # b # r \<Rightarrow>
                  if a = CHR ''0'' \<and> (b = CHR ''x'' \<or> b = CHR ''X'') then (16, r) else (10, u)
              | _ \<Rightarrow> (10, u))
      in case parseDigits radix v None of
           None \<Rightarrow> NaN
         | Some n \<Rightarrow> Num (if negative then - int n else int n))"

text \<open>\<open>rawGridNumbers.shift()\<close>: the first element (or \<open>undefined\<close>) and the rest.\<close>

definition shift :: "'a list \<Rightarrow> 'a option \<times> 'a list" where
  "shift xs = (case xs of [] \<Rightarrow> (None, []) | x # rest \<Rightarrow> (Some x, rest))"

text \<open>The inner loop (\<open>n\<close> iterations left) and the outer loop.\<close>

fun fillRow :: "nat \<Rightarrow> string list \<Rightarrow> jsnum list \<Rightarrow> jsnum list \<times> string list" where
  "fillRow 0 rawGridNumbers tempArray = (tempArray, rawGridNumbers)"
| "fillRow (Suc n) rawGridNumbers tempArray =
     (case shift rawGridNumbers of
        (s, rawGridNumbers') \<Rightarrow> fillRow n rawGridNumbers' (tempArray @ [parseInt s]))"

fun fillGrid :: "nat \<Rightarrow> string list \<Rightarrow> grid \<Rightarrow> grid" where
  "fillGrid 0 rawGridNumbers sortedArray = sortedArray"
| "fillGrid (Suc n) rawGridNumbers sortedArray =
     (case fillRow 9 rawGridNumbers [] of
        (tempArray, rawGridNumbers') \<Rightarrow> fillGrid n rawGridNumbers' (sortedArray @ [tempArray]))"

definition gridPrimitiveToArray :: "string \<Rightarrow> grid" where
  "gridPrimitiveToArray string = fillGrid 9 (js_split CHR '','' string) []"

section \<open>validateFullGrid\<close>

text \<open>\<open>[...new Set(xs)].length\<close>; \<open>new Set(undefined)\<close> is the empty set.\<close>

definition setSize :: "'a list option \<Rightarrow> nat" where
  "setSize xs = (case xs of None \<Rightarrow> 0 | Some ys \<Rightarrow> length (remdups ys))"

text \<open>The values pushed to \<open>tempArray\<close> for one column.\<close>

fun columnValues :: "grid \<Rightarrow> nat \<Rightarrow> nat list \<Rightarrow> error + jsnum option list" where
  "columnValues grid column [] = Inr []"
| "columnValues grid column (row # rows) =
     (case cell grid row column of
        Inl e \<Rightarrow> Inl e
      | Inr v \<Rightarrow>
          (case columnValues grid column rows of
             Inl e \<Rightarrow> Inl e
           | Inr vs \<Rightarrow> Inr (v # vs)))"

text \<open>The four nested loops of the subgrid check, outermost first: column, row, tempRow, tempColumn.\<close>

definition subgridPairs :: "((nat \<times> nat) \<times> (nat \<times> nat)) list" where
  "subgridPairs =
     concat (map (\<lambda>column. concat (map (\<lambda>row.
        map (\<lambda>t. ((row, column), t)) (subgridCells row column)) [0..<9])) [0..<9])"

definition clash :: "grid \<Rightarrow> (nat \<times> nat) \<times> (nat \<times> nat) \<Rightarrow> error + bool" where
  "clash grid p =
     (case p of ((row, column), (tempRow, tempColumn)) \<Rightarrow>
        (case cell grid row column of
           Inl e \<Rightarrow> Inl e
         | Inr a \<Rightarrow>
             (case cell grid tempRow tempColumn of
                Inl e \<Rightarrow> Inl e
              | Inr b \<Rightarrow> Inr (strictEq a b \<and> (row \<noteq> tempRow \<or> column \<noteq> tempColumn)))))"

definition validateFullGrid :: "grid \<Rightarrow> error + bool" where
  "validateFullGrid grid =
     (if list_ex (\<lambda>i. setSize (index grid i) \<noteq> 9) [0..<9] then Inr False
      else
        (case exitsEarly (\<lambda>column.
                 case columnValues grid column [0..<9] of
                   Inl e \<Rightarrow> Inl e
                 | Inr tempArray \<Rightarrow> Inr (setSize (Some tempArray) \<noteq> 9)) [0..<9] of
           Inl e \<Rightarrow> Inl e
         | Inr badColumn \<Rightarrow>
             if badColumn then Inr False
             else
               (case exitsEarly (clash grid) subgridPairs of
                  Inl e \<Rightarrow> Inl e
                | Inr badSubgrid \<Rightarrow> Inr (\<not> badSubgrid))))"

section \<open>getGridSolution\<close>

text \<open>
  The exported function. \<open>gridPrimitive\<close> is a global of the module: it is passed in
  as it was left by earlier calls, and returned. \<open>!gridPrimitive\<close> holds for
  \<open>undefined\<close> and for the empty string. The two \<open>console.log\<close> calls are left out.
\<close>

definition getGridSolution ::
  "nat \<Rightarrow> grid \<Rightarrow> string option \<Rightarrow> error + jsvalue \<times> grid \<times> string option" where
  "getGridSolution fuel grid gridPrimitive =
     (case solveGrid fuel grid gridPrimitive of
        Inl e \<Rightarrow> Inl e
      | Inr (_, grid', gridPrimitive') \<Rightarrow>
          (case gridPrimitive' of
             None \<Rightarrow> Inr (JBool False, grid', gridPrimitive')
           | Some s \<Rightarrow>
               if s = [] then Inr (JBool False, grid', gridPrimitive')
               else
                 (let solution = gridPrimitiveToArray s
                  in case validateFullGrid solution of
                       Inl e \<Rightarrow> Inl e
                     | Inr valid \<Rightarrow>
                         Inr (if valid then JGrid solution else JBool False,
                              grid', gridPrimitive'))))"

section \<open>Specification vocabulary\<close>

text \<open>
  A grid as the data model has it: 9 rows of 9 cells, each an integer from 0 to 9
  (0 for an empty cell). A full grid has no empty cell.
\<close>

definition digitIn :: "int \<Rightarrow> int \<Rightarrow> jsnum \<Rightarrow> bool" where
  "digitIn lo hi x = (case x of Num i \<Rightarrow> lo \<le> i \<and> i \<le> hi | NaN \<Rightarrow> False)"

definition isGrid :: "grid \<Rightarrow> bool" where
  "isGrid g = (length g = 9 \<and> list_all (\<lambda>row. length row = 9 \<and> list_all (digitIn 0 9) row) g)"

definition isFullGrid :: "grid \<Rightarrow> bool" where
  "isFullGrid g = (length g = 9 \<and> list_all (\<lambda>row. length row = 9 \<and> list_all (digitIn 1 9) row) g)"

text \<open>The empty cells of a grid in row-major order, and their number.\<close>

definition empties :: "grid \<Rightarrow> (nat \<times> nat) list" where
  "empties g = filter (\<lambda>(r, c). cellIs g r c 0 = Inr True) positions"

definition emptyCount :: "grid \<Rightarrow> nat" where
  "emptyCount g = length (empties g)"

text \<open>
  The three regions of a cell, as lists of the values they hold: its row, its column,
  and the 3x3 box with origin \<open>(3 * (r div 3), 3 * (c div 3))\<close>.
\<close>

definition rowValues :: "grid \<Rightarrow> nat \<Rightarrow> jsnum list" where
  "rowValues g r = g ! r"

definition colValues :: "grid \<Rightarrow> nat \<Rightarrow> jsnum list" where
  "colValues g c = map (\<lambda>i. g ! i ! c) [0..<9]"

definition boxValues :: "grid \<Rightarrow> nat \<Rightarrow> nat \<Rightarrow> jsnum list" where
  "boxValues g r c =
     map (\<lambda>(i, j). g ! i ! j)
       (List.product [3 * (r div 3) ..< 3 * (r div 3) + 3] [3 * (c div 3) ..< 3 * (c div 3) + 3])"

text \<open>
  The grids the search reaches with every empty cell filled, in the order of the search:
  the empty cells are taken in row-major order and, for each, the digits 1 to 9 in
  ascending order, a digit being tried only where the placement check accepts it.
\<close>

fun completions :: "(nat \<times> nat) list \<Rightarrow> grid \<Rightarrow> grid list" where
  "completions [] g = [g]"
| "completions ((r, c) # rest) g =
     concat (map (\<lambda>n. if isValidPlacement g n r c = Inr True
                        then completions rest (setCell g r c (Num n)) else []) [1..9])"

definition solutions :: "grid \<Rightarrow> grid list" where
  "solutions g = completions (empties g) g"

text \<open>\<open>gridPrimitive\<close> after a search that found the grids \<open>ss\<close>, in this order: each overwrites it.\<close>

definition lastSnapshot :: "string option \<Rightarrow> grid list \<Rightarrow> string option" where
  "lastSnapshot p ss = (if ss = [] then p else Some (toString (last ss)))"

text \<open>
  A solved grid: full, and every row, every column and every 3x3 box holds each of
  the digits 1 to 9 exactly once.
\<close>

definition eachDigitOnce :: "jsnum list \<Rightarrow> bool" where
  "eachDigitOnce vs = list_all (\<lambda>d. count_list vs (Num d) = 1) [1..9]"

definition isSolved :: "grid \<Rightarrow> bool" where
  "isSolved g =
     (isFullGrid g
      \<and> list_all (\<lambda>i. eachDigitOnce (rowValues g i)) [0..<9]
      \<and> list_all (\<lambda>j. eachDigitOnce (colValues g j)) [0..<9]
      \<and> list_all (\<lambda>bi. list_all (\<lambda>bj. eachDigitOnce (boxValues g (3 * bi) (3 * bj))) [0..<3]) [0..<3])"

text \<open>
  The values the global \<open>gridPrimitive\<close> can hold in a process that has called
  \<open>getGridSolution\<close> any number of times, each time on a 9x9 grid of digits.
\<close>

inductive reachable :: "string option \<Rightarrow> bool" where
  fresh: "reachable None"
| call: "reachable p \<Longrightarrow> isGrid g \<Longrightarrow> getGridSolution fuel g p = Inr (v, g', p')
         \<Longrightarrow> reachable p'"

section \<open>Example grids\<close>

definition solvedGrid :: grid where
  "solvedGrid = map (map Num)
     [[5,3,4,6,7,8,9,1,2],
      [6,7,2,1,9,5,3,4,8],
      [1,9,8,3,4,2,5,6,7],
      [8,5,9,7,6,1,4,2,3],
      [4,2,6,8,5,3,7,9,1],
      [7,1,3,9,2,4,8,5,6],
      [9,6,1,5,3,7,2,8,4],
      [2,8,7,4,1,9,6,3,5],
      [3,4,5,2,8,6,1,7,9]]"

text \<open>\<open>solvedGrid\<close> with its first cell emptied: one empty cell, one way to fill it.\<close>

definition oneEmptyGrid :: grid where
  "oneEmptyGrid = map (map Num)
     [[0,3,4,6,7,8,9,1,2],
      [6,7,2,1,9,5,3,4,8],
      [1,9,8,3,4,2,5,6,7],
      [8,5,9,7,6,1,4,2,3],
      [4,2,6,8,5,3,7,9,1],
      [7,1,3,9,2,4,8,5,6],
      [9,6,1,5,3,7,2,8,4],
      [2,8,7,4,1,9,6,3,5],
      [3,4,5,2,8,6,1,7,9]]"

text \<open>
  \<open>solvedGrid\<close> with the cells (0,3), (0,4), (3,3), (3,4) emptied: they held 6 7 / 7 6,
  and 7 6 / 6 7 fits as well, so this puzzle has two solutions.
\<close>

definition twoSolutionGrid :: grid where
  "twoSolutionGrid = map (map Num)
     [[5,3,4,0,0,8,9,1,2],
      [6,7,2,1,9,5,3,4,8],
      [1,9,8,3,4,2,5,6,7],
      [8,5,9,0,0,1,4,2,3],
      [4,2,6,8,5,3,7,9,1],
      [7,1,3,9,2,4,8,5,6],
      [9,6,1,5,3,7,2,8,4],
      [2,8,7,4,1,9,6,3,5],
      [3,4,5,2,8,6,1,7,9]]"

definition secondSolution :: grid where
  "secondSolution = map (map Num)
     [[5,3,4,7,6,8,9,1,2],
      [6,7,2,1,9,5,3,4,8],
      [1,9,8,3,4,2,5,6,7],
      [8,5,9,6,7,1,4,2,3],
      [4,2,6,8,5,3,7,9,1],
      [7,1,3,9,2,4,8,5,6],
      [9,6,1,5,3,7,2,8,4],
      [2,8,7,4,1,9,6,3,5],
      [3,4,5,2,8,6,1,7,9]]"

text \<open>
  \<open>solvedGrid\<close> with cell (0,0) emptied and the 3 at (0,1) replaced by 5: every digit
  is already in the row or the column of the empty cell, so no digit can be placed.
\<close>

definition stuckGrid :: grid where
  "stuckGrid = map (map Num)
     [[0,5,4,6,7,8,9,1,2],
      [6,7,2,1,9,5,3,4,8],
      [1,9,8,3,4,2,5,6,7],
      [8,5,9,7,6,1,4,2,3],
      [4,2,6,8,5,3,7,9,1],
      [7,1,3,9,2,4,8,5,6],
      [9,6,1,5,3,7,2,8,4],
      [2,8,7,4,1,9,6,3,5],
      [3,4,5,2,8,6,1,7,9]]"

section \<open>Basic facts about cells and loops\<close>

lemma cellIs_True_iff:
  "cellIs g r c n = Inr True \<longleftrightarrow> r < length g \<and> c < length (g ! r) \<and> g ! r ! c = Num n"
  by (auto simp: cellIs_def cell_def index_def strictEq_def split: sum.splits)

lemma cellIs_Inr:
  "r < length g \<Longrightarrow> cellIs g r c n = Inr (c < length (g ! r) \<and> g ! r ! c = Num n)"
  by (auto simp: cellIs_def cell_def index_def strictEq_def)

lemma exitsEarly_Inr:
  "(\<And>x. x \<in> set xs \<Longrightarrow> body x = Inr (P x)) \<Longrightarrow> exitsEarly body xs = Inr (\<exists>x\<in>set xs. P x)"
  by (induction xs) auto

lemma set_positions: "set positions = {..<9} \<times> {..<9}"
  by (auto simp: positions_def)

lemma distinct_positions: "distinct positions"
  by (simp add: positions_def distinct_product)

lemma set_subgridCells:
  "set (subgridCells r c) =
     {3 * (r div 3) ..< 3 * (r div 3) + 3} \<times> {3 * (c div 3) ..< 3 * (c div 3) + 3}"
  by (simp add: subgridCells_def Let_def mult.commute)

lemma subgridCells_bound:
  "r < 9 \<Longrightarrow> c < 9 \<Longrightarrow> (i, j) \<in> set (subgridCells r c) \<Longrightarrow> i < 9 \<and> j < 9"
  unfolding set_subgridCells by (simp, presburger)

lemma isValidPlacement_char:
  assumes "9 \<le> length g" "r < 9" "c < 9"
  shows "isValidPlacement g n r c =
     Inr (Num n \<notin> set (g ! r)
          \<and> (\<forall>i<9. \<not> (c < length (g ! i) \<and> g ! i ! c = Num n))
          \<and> (\<forall>(i, j)\<in>set (subgridCells r c). \<not> (j < length (g ! i) \<and> g ! i ! j = Num n)))"
proof -
  have col: "exitsEarly (\<lambda>i. cellIs g i c n) [0..<9]
      = Inr (\<exists>i\<in>set [0..<9]. c < length (g ! i) \<and> g ! i ! c = Num n)"
    using assms by (intro exitsEarly_Inr) (simp add: cellIs_Inr)
  have box: "exitsEarly (\<lambda>(tempRow, tempColumn). cellIs g tempRow tempColumn n) (subgridCells r c)
      = Inr (\<exists>x\<in>set (subgridCells r c). case x of (i, j) \<Rightarrow> j < length (g ! i) \<and> g ! i ! j = Num n)"
  proof (intro exitsEarly_Inr)
    fix x assume x: "x \<in> set (subgridCells r c)"
    obtain i j where ij: "x = (i, j)" by (cases x)
    with x assms have "i < length g" using subgridCells_bound [of r c i j] by simp
    with ij show "(case x of (tempRow, tempColumn) \<Rightarrow> cellIs g tempRow tempColumn n)
        = Inr (case x of (i, j) \<Rightarrow> j < length (g ! i) \<and> g ! i ! j = Num n)"
      by (simp add: cellIs_Inr)
  qed
  from assms have "index g r = Some (g ! r)" by (simp add: index_def)
  then show ?thesis
    unfolding isValidPlacement_def col box
    by (auto simp: list_ex_iff)
qed

section \<open>The solver hands the grid back as it received it\<close>

lemma setCell_restore:
  "r < length g \<Longrightarrow> g ! r ! c = v \<Longrightarrow> setCell (setCell g r c w) r c v = g"
  by (auto simp: setCell_def)

lemma findEmpty_Some:
  "findEmpty g ps = Inr (Some (r, c)) \<Longrightarrow> (r, c) \<in> set ps \<and> cellIs g r c 0 = Inr True"
  by (induction g ps rule: findEmpty.induct) (auto split: sum.splits if_splits)

lemma tryNumbers_restores:
  assumes solve: "\<And>h q v h' q'. solve h q = Inr (v, h', q') \<Longrightarrow> h' = h"
    and zero: "cellIs g r c 0 = Inr True"
  shows "tryNumbers solve r c ns g p = Inr (g', p') \<Longrightarrow> g' = g"
proof (induction ns arbitrary: p)
  case Nil
  then show ?case by simp
next
  case (Cons n ns)
  from zero have rc: "r < length g" "g ! r ! c = Num 0"
    by (simp_all add: cellIs_True_iff)
  show ?case
  proof (cases "isValidPlacement g n r c")
    case (Inl e)
    with Cons.prems show ?thesis by simp
  next
    case (Inr valid)
    show ?thesis
    proof (cases valid)
      case False
      with Inr Cons show ?thesis by simp
    next
      case True
      with Inr Cons.prems obtain v h q where
        call: "solve (setCell g r c (Num n)) p = Inr (v, h, q)"
        and rest: "tryNumbers solve r c ns (setCell h r c (Num 0)) q = Inr (g', p')"
        by (auto split: sum.splits)
      from solve [OF call] have "h = setCell g r c (Num n)" .
      with rc have "setCell h r c (Num 0) = g"
        by (simp add: setCell_restore)
      with rest Cons.IH show ?thesis by simp
    qed
  qed
qed

lemma solveGrid_restores:
  "solveGrid fuel g p = Inr (v, g', p') \<Longrightarrow> v = JUndefined \<and> g' = g"
proof (induction fuel arbitrary: g p v g' p')
  case 0
  then show ?case by simp
next
  case (Suc fuel)
  show ?case
  proof (cases "findEmpty g positions")
    case (Inl e)
    with Suc.prems show ?thesis by simp
  next
    case (Inr found)
    show ?thesis
    proof (cases found)
      case None
      with Inr Suc.prems show ?thesis by simp
    next
      case (Some rc)
      obtain r c where rc: "rc = (r, c)" by (cases rc)
      from Inr Some rc have zero: "cellIs g r c 0 = Inr True"
        by (simp add: findEmpty_Some)
      from Suc.prems Inr Some rc obtain h q where
        loop: "tryNumbers (solveGrid fuel) r c [1..9] g p = Inr (h, q)"
        and res: "v = JUndefined" "g' = h" "p' = q"
        by (auto split: sum.splits)
      have "h = g"
        using tryNumbers_restores [OF _ zero loop] Suc.IH by blast
      with res show ?thesis by simp
    qed
  qed
qed

section \<open>The search and its list of completions\<close>

lemma length_setCell [simp]: "length (setCell g r c v) = length g"
  by (simp add: setCell_def)

lemma cellIs_setCell:
  assumes "r < length g" "c < length (g ! r)"
  shows "(cellIs (setCell g r c v) r' c' n = Inr True)
       = (if r' = r \<and> c' = c then v = Num n else cellIs g r' c' n = Inr True)"
  using assms by (auto simp: cellIs_True_iff setCell_def nth_list_update)

lemma findEmpty_filter:
  "(\<And>r c. (r, c) \<in> set ps \<Longrightarrow> r < length g) \<Longrightarrow>
   findEmpty g ps =
     Inr (case filter (\<lambda>(r, c). cellIs g r c 0 = Inr True) ps of [] \<Rightarrow> None | x # _ \<Rightarrow> Some x)"
proof (induction ps)
  case Nil
  then show ?case by simp
next
  case (Cons x ps)
  obtain row column where x: "x = (row, column)" by (cases x)
  with Cons.prems have row: "row < length g" by auto
  have IH: "findEmpty g ps =
     Inr (case filter (\<lambda>(r, c). cellIs g r c 0 = Inr True) ps of [] \<Rightarrow> None | x # _ \<Rightarrow> Some x)"
    by (rule Cons.IH) (use Cons.prems in auto)
  from row show ?case by (simp add: x cellIs_Inr IH)
qed

lemma findEmpty_empties:
  "9 \<le> length g \<Longrightarrow>
   findEmpty g positions = Inr (case empties g of [] \<Rightarrow> None | x # _ \<Rightarrow> Some x)"
  unfolding empties_def by (rule findEmpty_filter) (auto simp: set_positions)

lemma empties_setCell:
  assumes e: "empties g = (r, c) # rest" and n: "n \<noteq> 0"
  shows "empties (setCell g r c (Num n)) = rest"
proof -
  let ?P = "\<lambda>(r', c'). cellIs g r' c' 0 = Inr True"
  have "(r, c) \<in> set (empties g)" using e by simp
  then have zero: "cellIs g r c 0 = Inr True" by (simp add: empties_def)
  then have rc: "r < length g" "c < length (g ! r)" by (simp_all add: cellIs_True_iff)
  have "empties (setCell g r c (Num n)) = filter (\<lambda>x. x \<noteq> (r, c) \<and> ?P x) positions"
    unfolding empties_def using n
    by (intro filter_cong refl) (auto simp: cellIs_setCell [OF rc])
  also have "\<dots> = filter (\<lambda>x. x \<noteq> (r, c)) (empties g)"
    by (simp add: empties_def conj_commute)
  also have "\<dots> = filter (\<lambda>x. x \<noteq> (r, c)) rest"
    using e by simp
  also have "\<dots> = rest"
  proof -
    have "distinct (empties g)" by (simp add: empties_def distinct_positions)
    with e have "(r, c) \<notin> set rest" by simp
    then show ?thesis by (simp add: filter_id_conv) blast
  qed
  finally show ?thesis .
qed

lemma lastSnapshot_Nil [simp]: "lastSnapshot p [] = p"
  by (simp add: lastSnapshot_def)

lemma lastSnapshot_append: "lastSnapshot (lastSnapshot p xs) ys = lastSnapshot p (xs @ ys)"
  by (simp add: lastSnapshot_def)

lemma isValidPlacement_defined:
  "9 \<le> length g \<Longrightarrow> r < 9 \<Longrightarrow> c < 9 \<Longrightarrow> \<exists>b. isValidPlacement g n r c = Inr b"
  by (simp add: isValidPlacement_char)

lemma tryNumbers_completions:
  assumes solve: "\<And>n q. n \<in> set ns \<Longrightarrow>
      solve (setCell g r c (Num n)) q =
        Inr (JUndefined, setCell g r c (Num n), lastSnapshot q (completions rest (setCell g r c (Num n))))"
    and len: "9 \<le> length g" and rc: "r < 9" "c < 9"
    and zero: "cellIs g r c 0 = Inr True"
  shows "tryNumbers solve r c ns g p =
     Inr (g, lastSnapshot p (concat (map (\<lambda>n. if isValidPlacement g n r c = Inr True
                        then completions rest (setCell g r c (Num n)) else []) ns)))"
  using solve
proof (induction ns arbitrary: p)
  case Nil
  then show ?case by simp
next
  case (Cons n ns)
  from zero have undo: "setCell (setCell g r c (Num n)) r c (Num 0) = g"
    by (simp add: cellIs_True_iff setCell_restore)
  obtain b where b: "isValidPlacement g n r c = Inr b"
    using isValidPlacement_defined [OF len rc] by blast
  have IH: "\<And>q. tryNumbers solve r c ns g q =
     Inr (g, lastSnapshot q (concat (map (\<lambda>n. if isValidPlacement g n r c = Inr True
                        then completions rest (setCell g r c (Num n)) else []) ns)))"
    using Cons.IH Cons.prems by simp
  show ?case
  proof (cases b)
    case True
    have "solve (setCell g r c (Num n)) p =
        Inr (JUndefined, setCell g r c (Num n), lastSnapshot p (completions rest (setCell g r c (Num n))))"
      using Cons.prems by simp
    with b True show ?thesis
      by (simp add: undo IH lastSnapshot_append)
  next
    case False
    with b show ?thesis by (simp add: IH)
  qed
qed

lemma solveGrid_solutions:
  "9 \<le> length g \<Longrightarrow> emptyCount g < fuel \<Longrightarrow>
   solveGrid fuel g p = Inr (JUndefined, g, lastSnapshot p (solutions g))"
proof (induction fuel arbitrary: g p)
  case 0
  then show ?case by simp
next
  case (Suc fuel)
  show ?case
  proof (cases "empties g")
    case Nil
    with Suc.prems show ?thesis
      by (simp add: findEmpty_empties solutions_def lastSnapshot_def)
  next
    case (Cons rc rest)
    obtain r c where rc: "rc = (r, c)" by (cases rc)
    with Cons have e: "empties g = (r, c) # rest" by simp
    then have "(r, c) \<in> set (empties g)" by simp
    then have zero: "cellIs g r c 0 = Inr True" and bound: "r < 9" "c < 9"
      by (auto simp: empties_def set_positions)
    have call: "solveGrid fuel (setCell g r c (Num n)) q =
        Inr (JUndefined, setCell g r c (Num n), lastSnapshot q (completions rest (setCell g r c (Num n))))"
      if "n \<in> set [1..9]" for n q
    proof -
      from that have "n \<noteq> 0" by auto
      then have e': "empties (setCell g r c (Num n)) = rest"
        by (rule empties_setCell [OF e])
      with Suc.prems e have "emptyCount (setCell g r c (Num n)) < fuel"
        by (simp add: emptyCount_def)
      with Suc.IH [of "setCell g r c (Num n)" q] Suc.prems(1) e' show ?thesis
        by (simp add: solutions_def)
    qed
    have loop: "tryNumbers (solveGrid fuel) r c [1..9] g p =
        Inr (g, lastSnapshot p (concat (map (\<lambda>n. if isValidPlacement g n r c = Inr True
                        then completions rest (setCell g r c (Num n)) else []) [1..9])))"
      by (rule tryNumbers_completions [OF call Suc.prems(1) bound zero])
    show ?thesis
      apply (simp only: solveGrid.simps findEmpty_empties [OF Suc.prems(1)] e solutions_def)
      apply (simp only: list.case option.case sum.case prod.case)
      apply (subst loop)
      apply simp
      done
  qed
qed

section \<open>Well-formed grids\<close>

lemma isGrid_length: "isGrid g \<Longrightarrow> length g = 9"
  by (simp add: isGrid_def)

lemma isGrid_rows: "isGrid g \<Longrightarrow> i < 9 \<Longrightarrow> length (g ! i) = 9"
  by (simp add: isGrid_def list_all_length)

lemma emptyCount_le: "emptyCount g \<le> 81"
proof -
  have "emptyCount g \<le> length positions"
    by (simp add: emptyCount_def empties_def)
  also have "length positions = 81"
    by (simp add: positions_def)
  finally show ?thesis .
qed

section \<open>Termination of the search\<close>

text \<open>
  Claim C9. For every 9x9 grid with entries from 0 to 9 the recursive solver terminates:
  the number of empty cells is at most 81, the call returns (with the value
  \<open>undefined\<close>) as soon as the budget of stack frames exceeds the number of empty
  cells, that is with the initial call and at most 81 nested calls, and the grid
  passed to a recursive call, the first empty cell filled with a non-zero number, has
  strictly fewer empty cells.
\<close>

theorem solveGrid_terminates:
  assumes "isGrid g"
  shows "emptyCount g \<le> 81
     \<and> (\<forall>fuel p. emptyCount g < fuel \<longrightarrow> (\<exists>p'. solveGrid fuel g p = Inr (JUndefined, g, p')))
     \<and> (\<forall>r c n. findEmpty g positions = Inr (Some (r, c)) \<and> n \<noteq> 0 \<longrightarrow>
           emptyCount (setCell g r c (Num n)) < emptyCount g)"
proof (intro conjI allI impI)
  show "emptyCount g \<le> 81" by (rule emptyCount_le)
next
  fix fuel p assume "emptyCount g < fuel"
  with assms show "\<exists>p'. solveGrid fuel g p = Inr (JUndefined, g, p')"
    by (simp add: solveGrid_solutions isGrid_length)
next
  fix r c and n :: int assume a: "findEmpty g positions = Inr (Some (r, c)) \<and> n \<noteq> 0"
  with assms have "(case empties g of [] \<Rightarrow> None | x # _ \<Rightarrow> Some x) = Some (r, c)"
    by (simp add: findEmpty_empties isGrid_length)
  then obtain rest where e: "empties g = (r, c) # rest"
    by (cases "empties g") auto
  with a have "empties (setCell g r c (Num n)) = rest"
    by (simp add: empties_setCell)
  with e show "emptyCount (setCell g r c (Num n)) < emptyCount g"
    by (simp add: emptyCount_def)
qed

lemma isGrid_twoSolutionGrid: "isGrid twoSolutionGrid"
  by code_simp

lemma emptyCount_twoSolutionGrid: "emptyCount twoSolutionGrid = 4"
  by code_simp

theorem solveGrid_terminates_witness:
  "isGrid twoSolutionGrid \<and> emptyCount twoSolutionGrid = 4
   \<and> (\<exists>p'. solveGrid 5 twoSolutionGrid None = Inr (JUndefined, twoSolutionGrid, p'))"
  using solveGrid_terminates [OF isGrid_twoSolutionGrid]
  by (simp add: isGrid_twoSolutionGrid emptyCount_twoSolutionGrid)

section \<open>The placement check\<close>

text \<open>
  Claim C7. For every 9x9 grid with entries from 0 to 9, every digit from 1 to 9 and
  every cell (row, column) with both coordinates from 0 to 8, \<open>isValidPlacement\<close>
  returns true when the digit occurs nowhere in the row, nowhere in the column and
  nowhere in the 3x3 box of the cell, and false when it occurs in at least one of
  these three regions.
\<close>

theorem isValidPlacement_regions:
  assumes "isGrid g" "1 \<le> d" "d \<le> 9" "r < 9" "c < 9"
  shows "isValidPlacement g d r c =
     Inr (Num d \<notin> set (rowValues g r) \<and> Num d \<notin> set (colValues g c)
          \<and> Num d \<notin> set (boxValues g r c))"
proof -
  have len: "9 \<le> length g" using assms(1) by (simp add: isGrid_length)
  have col: "(\<forall>i<9. \<not> (c < length (g ! i) \<and> g ! i ! c = Num d)) = (Num d \<notin> set (colValues g c))"
  proof -
    have "c < length (g ! i)" if "i < 9" for i
      using that assms(1,5) by (simp add: isGrid_rows)
    moreover have "set (colValues g c) = (\<lambda>i. g ! i ! c) ` {..<9}"
      by (auto simp: colValues_def)
    ultimately show ?thesis by (simp add: image_iff) (metis lessThan_iff)
  qed
  have box: "(\<forall>(i, j)\<in>set (subgridCells r c). \<not> (j < length (g ! i) \<and> g ! i ! j = Num d))
      = (Num d \<notin> set (boxValues g r c))"
  proof -
    have "j < length (g ! i)" if "(i, j) \<in> set (subgridCells r c)" for i j
      using subgridCells_bound [OF assms(4,5) that] assms(1) by (simp add: isGrid_rows)
    moreover have "set (boxValues g r c) = (\<lambda>(i, j). g ! i ! j) ` set (subgridCells r c)"
      by (simp add: boxValues_def set_subgridCells)
    ultimately show ?thesis by (simp add: image_iff split_beta) (metis prod.collapse)
  qed
  show ?thesis
    unfolding isValidPlacement_char [OF len assms(4,5)] col box rowValues_def ..
qed

lemma isGrid_oneEmptyGrid: "isGrid oneEmptyGrid"
  by code_simp

theorem isValidPlacement_regions_witness:
  "isGrid oneEmptyGrid \<and> isValidPlacement oneEmptyGrid 5 0 0 = Inr True
   \<and> isValidPlacement oneEmptyGrid 3 0 0 = Inr False"
proof -
  have five: "Num 5 \<notin> set (rowValues oneEmptyGrid 0) \<and> Num 5 \<notin> set (colValues oneEmptyGrid 0)
          \<and> Num 5 \<notin> set (boxValues oneEmptyGrid 0 0)"
    by code_simp
  have three: "Num 3 \<in> set (rowValues oneEmptyGrid 0)"
    by code_simp
  show ?thesis
    using isValidPlacement_regions [OF isGrid_oneEmptyGrid, of 5 0 0]
      isValidPlacement_regions [OF isGrid_oneEmptyGrid, of 3 0 0] five three
    by (simp add: isGrid_oneEmptyGrid)
qed

section \<open>What the search leaves behind\<close>

lemma solveGrid_twoSolutionGrid:
  "solveGrid 82 twoSolutionGrid None =
     Inr (JUndefined, twoSolutionGrid, Some (toString secondSolution))"
  by code_simp


lemma solutions_twoSolutionGrid: "solutions twoSolutionGrid = [solvedGrid, secondSolution]"
  by code_simp

text \<open>
  Claim C1 is what the comment at lines 74-76 of solver.js promises (the \<open>return\<close>
  after the loop is reached only when none of the digits 1 to 9 led to a solution),
  and the code breaks it: nothing stops the loop after a recursive call that completed
  the grid. On the puzzle with two solutions the call for cell (0,3) completes the
  grid with 6, sets the cell back to 0, goes on to 7, which completes the grid again,
  and reaches the \<open>return\<close>: the cell (0,3) is 0 after the call, and the snapshot left
  in \<open>gridPrimitive\<close> is the second solution of the search order (7 at (0,3)), not
  the first (6 at (0,3)).
\<close>

theorem solveGrid_keeps_last_solution:
  "solveGrid 82 twoSolutionGrid None =
     Inr (JUndefined, twoSolutionGrid, Some (toString secondSolution))
   \<and> cell twoSolutionGrid 0 3 = Inr (Some (Num 0))
   \<and> solutions twoSolutionGrid = [solvedGrid, secondSolution]
   \<and> toString secondSolution \<noteq> toString solvedGrid"
proof -
  have "cell twoSolutionGrid 0 3 = Inr (Some (Num 0))"
    by code_simp
  moreover have "toString secondSolution \<noteq> toString solvedGrid"
    by code_simp
  ultimately show ?thesis
    using solveGrid_twoSolutionGrid solutions_twoSolutionGrid by simp
qed





text \<open>
  Claim C4, as stated, fails. On a grid that is already complete the search succeeds
  at once and records the grid, and the value returned is \<open>undefined\<close>, not \<open>true\<close>.
\<close>

theorem solveGrid_returns_undefined_on_success:
  "solveGrid 82 solvedGrid None = Inr (JUndefined, solvedGrid, Some (toString solvedGrid))
   \<and> JUndefined \<noteq> JBool True"
  by code_simp

text \<open>
  Claim C4, amended. For every 9x9 grid with entries from 0 to 9, the solver returns
  \<open>undefined\<close>, never a boolean. Whether a solution was found is told by
  \<open>gridPrimitive\<close>: when it is unset before the call, it is set after the call if and
  only if the search reached a completed grid.
\<close>

theorem solveGrid_returns_undefined:
  assumes "isGrid g" "emptyCount g < fuel"
  shows "\<exists>p'. solveGrid fuel g None = Inr (JUndefined, g, p') \<and> (p' \<noteq> None \<longleftrightarrow> solutions g \<noteq> [])"
  using assms by (simp add: solveGrid_solutions isGrid_length lastSnapshot_def)

lemma isGrid_stuckGrid: "isGrid stuckGrid"
  by code_simp

lemma emptyCount_stuckGrid: "emptyCount stuckGrid = 1"
  by code_simp

lemma solutions_stuckGrid: "solutions stuckGrid = []"
  by code_simp

theorem solveGrid_returns_undefined_witness:
  "isGrid stuckGrid \<and> emptyCount stuckGrid < 82 \<and> solutions stuckGrid = []
   \<and> solveGrid 82 stuckGrid None = Inr (JUndefined, stuckGrid, None)"
  using solveGrid_returns_undefined [OF isGrid_stuckGrid, of 82]
  by (auto simp: isGrid_stuckGrid emptyCount_stuckGrid solutions_stuckGrid)

section \<open>Serialising and reading back\<close>

lemma digit_cases:
  assumes "digitIn 0 9 x"
  obtains "x = Num 0" | "x = Num 1" | "x = Num 2" | "x = Num 3" | "x = Num 4"
    | "x = Num 5" | "x = Num 6" | "x = Num 7" | "x = Num 8" | "x = Num 9"
proof (cases x)
  case (Num i)
  with assms have "0 \<le> i" "i \<le> 9"
    by (simp_all add: digitIn_def)
  then have "i = 0 \<or> i = 1 \<or> i = 2 \<or> i = 3 \<or> i = 4 \<or> i = 5 \<or> i = 6 \<or> i = 7 \<or> i = 8 \<or> i = 9"
    by arith
  with Num that show ?thesis by blast
next
  case NaN
  with assms show ?thesis by (simp add: digitIn_def)
qed

lemma parseInt_numToString:
  "digitIn 0 9 x \<Longrightarrow> parseInt (Some (numToString x)) = x"
  by (erule digit_cases; hypsubst; code_simp)

lemma numToString_no_comma:
  "digitIn 0 9 x \<Longrightarrow> CHR '','' \<notin> set (numToString x)"
  by (erule digit_cases) (simp_all add: decimal.simps)

lemma js_split_no_sep: "sep \<notin> set w \<Longrightarrow> js_split sep w = [w]"
  by (induction w) auto

lemma js_split_append:
  "sep \<notin> set w \<Longrightarrow> js_split sep (w @ sep # rest) = w # js_split sep rest"
  by (induction w) auto

lemma js_split_join:
  "ws \<noteq> [] \<Longrightarrow> (\<And>w. w \<in> set ws \<Longrightarrow> sep \<notin> set w) \<Longrightarrow> js_split sep (join [sep] ws) = ws"
proof (induction "[sep]" ws rule: join.induct)
  case 1
  then show ?case by simp
next
  case (2 x)
  then show ?case by (simp add: js_split_no_sep)
next
  case (3 x y ys)
  then show ?case by (simp add: js_split_append)
qed

lemma join_append:
  "xs \<noteq> [] \<Longrightarrow> ys \<noteq> [] \<Longrightarrow> join sep (xs @ ys) = join sep xs @ sep @ join sep ys"
  by (induction sep xs rule: join.induct) (auto simp: neq_Nil_conv)

lemma join_concat:
  "(\<And>row. row \<in> set rows \<Longrightarrow> row \<noteq> []) \<Longrightarrow>
   join sep (map (join sep) rows) = join sep (concat rows)"
proof (induction rows)
  case Nil
  then show ?case by simp
next
  case (Cons row rows)
  show ?case
  proof (cases rows)
    case Nil
    then show ?thesis by simp
  next
    case (Cons row' rows')
    with Cons.prems have "row \<noteq> []" "concat rows \<noteq> []"
      by auto
    with Cons.IH Cons.prems Cons show ?thesis
      by (simp add: join_append)
  qed
qed

lemma fillRow_take:
  "n \<le> length raw \<Longrightarrow>
   fillRow n raw acc = (acc @ map (\<lambda>s. parseInt (Some s)) (take n raw), drop n raw)"
proof (induction n arbitrary: raw acc)
  case 0
  then show ?case by simp
next
  case (Suc n)
  then obtain s rest where raw: "raw = s # rest"
    by (cases raw) auto
  with Suc show ?case by (simp add: shift_def)
qed

lemma fillGrid_rows:
  assumes "\<And>row. row \<in> set rows \<Longrightarrow> length row = 9 \<and> list_all (digitIn 0 9) row"
  shows "fillGrid (length rows) (map numToString (concat rows) @ rest) acc = acc @ rows"
  using assms
proof (induction rows arbitrary: acc)
  case Nil
  then show ?case by simp
next
  case (Cons row rows)
  have row: "length row = 9" "list_all (digitIn 0 9) row"
    using Cons.prems by simp_all
  have "map (\<lambda>s. parseInt (Some s)) (map numToString row) = row"
    using row(2) by (simp add: list_all_iff map_idI parseInt_numToString)
  with row(1) have "fillRow 9 (map numToString (concat (row # rows)) @ rest) [] =
      (row, map numToString (concat rows) @ rest)"
    by (simp add: fillRow_take)
  with Cons.IH [of "acc @ [row]"] Cons.prems show ?case
    by simp
qed

lemma gridPrimitiveToArray_toString:
  assumes "isGrid g"
  shows "gridPrimitiveToArray (toString g) = g"
proof -
  have rows: "\<forall>row\<in>set g. length row = 9 \<and> list_all (digitIn 0 9) row"
    using assms by (simp add: isGrid_def list_all_iff)
  have g: "g \<noteq> []" using assms by (auto simp: isGrid_def)
  let ?strings = "map (map numToString) g"
  have "toString g = join '','' (map (join '','') ?strings)"
    by (simp add: toString_def comp_def)
  also have "\<dots> = join '','' (concat ?strings)"
    using rows by (intro join_concat) fastforce
  finally have "js_split CHR '','' (toString g) = concat ?strings"
  proof -
    assume eq: "toString g = join '','' (concat ?strings)"
    have ne: "concat ?strings \<noteq> []"
    proof -
      obtain row where "row \<in> set g" using g by (cases g) auto
      moreover from this have "row \<noteq> []" using rows by auto
      ultimately show ?thesis by auto
    qed
    have "CHR '','' \<notin> set w" if "w \<in> set (concat ?strings)" for w
      using that rows by (auto simp: list_all_iff numToString_no_comma)
    with ne show ?thesis
      unfolding eq by (rule js_split_join)
  qed
  moreover have "concat ?strings = map numToString (concat g)"
    by (simp add: map_concat)
  moreover have "length g = 9" using assms by (simp add: isGrid_def)
  ultimately show ?thesis
    using fillGrid_rows [of g "[]" "[]"] rows
    by (simp add: gridPrimitiveToArray_def)
qed

text \<open>
  Claim C10. For every 9x9 grid of digits, serialising the grid to its comma-separated
  string, as the solver does when the grid is complete, and reading the string back
  with \<open>gridPrimitiveToArray\<close> gives the grid again.
\<close>

theorem gridPrimitiveToArray_left_inverse:
  "isGrid g \<Longrightarrow> gridPrimitiveToArray (toString g) = g"
  by (rule gridPrimitiveToArray_toString)

theorem gridPrimitiveToArray_left_inverse_witness:
  "isGrid twoSolutionGrid \<and> gridPrimitiveToArray (toString twoSolutionGrid) = twoSolutionGrid"
  using gridPrimitiveToArray_left_inverse [OF isGrid_twoSolutionGrid]
  by (simp add: isGrid_twoSolutionGrid)

section \<open>The solution validator\<close>

lemma digitIn_mono: "digitIn 1 9 x \<Longrightarrow> digitIn 0 9 x"
  by (cases x) (simp_all add: digitIn_def)

lemma isFullGrid_isGrid: "isFullGrid g \<Longrightarrow> isGrid g"
  by (auto simp: isFullGrid_def isGrid_def list_all_iff digitIn_mono)

lemma isGrid_cell:
  assumes "isGrid g" "i < 9" "j < 9"
  shows "\<exists>d. g ! i ! j = Num d"
proof -
  from assms have "g ! i \<in> set g" "length (g ! i) = 9"
    by (simp_all add: isGrid_def list_all_length)
  with assms have "digitIn 0 9 (g ! i ! j)"
    by (simp add: isGrid_def list_all_length)
  then show ?thesis by (cases "g ! i ! j") (simp_all add: digitIn_def)
qed

lemma setSize_distinct: "length xs = 9 \<Longrightarrow> (setSize (Some xs) \<noteq> 9) = (\<not> distinct xs)"
  using length_remdups_eq [of xs] remdups_id_iff_distinct [of xs]
  by (simp add: setSize_def)

lemma columnValues_Inr:
  "(\<And>r. r \<in> set rs \<Longrightarrow> r < length g) \<Longrightarrow>
   columnValues g c rs = Inr (map (\<lambda>r. index (g ! r) c) rs)"
  by (induction rs) (simp_all add: cell_def index_def)

lemma columnValues_isGrid:
  assumes "isGrid g" "c < 9"
  shows "columnValues g c [0..<9] = Inr (map Some (colValues g c))"
proof -
  have "columnValues g c [0..<9] = Inr (map (\<lambda>r. index (g ! r) c) [0..<9])"
    using assms by (intro columnValues_Inr) (simp add: isGrid_length)
  also have "map (\<lambda>r. index (g ! r) c) [0..<9] = map Some (colValues g c)"
    using assms unfolding colValues_def by (simp add: index_def isGrid_rows)
  finally show ?thesis .
qed

lemma set_subgridPairs:
  "set subgridPairs = {((r, c), t). r < 9 \<and> c < 9 \<and> t \<in> set (subgridCells r c)}"
  by (force simp: subgridPairs_def)

lemma bex_subgridPairs:
  "(\<exists>p\<in>set subgridPairs. Q p) \<longleftrightarrow> (\<exists>r<9. \<exists>c<9. \<exists>t\<in>set (subgridCells r c). Q ((r, c), t))"
  unfolding set_subgridPairs by blast

lemma clash_isGrid:
  assumes "isGrid g" "r < 9" "c < 9" "(tr, tc) \<in> set (subgridCells r c)"
  shows "clash g ((r, c), (tr, tc)) = Inr (g ! r ! c = g ! tr ! tc \<and> (r, c) \<noteq> (tr, tc))"
proof -
  from assms have t: "tr < 9" "tc < 9"
    using subgridCells_bound [of r c tr tc] by simp_all
  obtain d where d: "g ! r ! c = Num d"
    using isGrid_cell [OF assms(1-3)] by blast
  have a: "cell g r c = Inr (Some (g ! r ! c))"
    using assms(1-3) by (simp add: cell_def index_def isGrid_length isGrid_rows)
  have b: "cell g tr tc = Inr (Some (g ! tr ! tc))"
    using assms(1) t by (simp add: cell_def index_def isGrid_length isGrid_rows)
  show ?thesis
    unfolding clash_def prod.case a b sum.case strictEq_def using d by auto
qed

lemma subgridCells_origin:
  "subgridCells (3 * (r div 3)) (3 * (c div 3)) = subgridCells r c"
  by (simp add: subgridCells_def)

lemma boxValues_subgridCells:
  "boxValues g r c = map (\<lambda>(i, j). g ! i ! j) (subgridCells r c)"
proof -
  have "3 * (r div 3) = r div 3 * 3" "3 * (c div 3) = c div 3 * 3"
    by simp_all
  then show ?thesis
    by (simp only: boxValues_def subgridCells_def Let_def)
qed

lemma distinct_subgridCells: "distinct (subgridCells r c)"
  by (simp add: subgridCells_def Let_def distinct_product)

lemma in_third: "(3 * q \<le> i \<and> i < 3 * q + 3) \<longleftrightarrow> i div 3 = (q::nat)"
  by presburger

lemma mem_subgridCells:
  "(i, j) \<in> set (subgridCells r c) \<longleftrightarrow> i div 3 = r div 3 \<and> j div 3 = c div 3"
  unfolding set_subgridCells by (simp add: in_third)

lemma no_clash_iff:
  "(\<forall>r<9. \<forall>c<9. \<forall>t\<in>set (subgridCells r c).
       \<not> (g ! r ! c = g ! fst t ! snd t \<and> (r, c) \<noteq> t))
   \<longleftrightarrow> (\<forall>bi<3. \<forall>bj<3. distinct (boxValues g (3 * bi) (3 * bj)))"
  (is "?L \<longleftrightarrow> ?R")
proof
  assume L: ?L
  show ?R
  proof (intro allI impI)
    fix bi bj :: nat assume b: "bi < 3" "bj < 3"
    have "inj_on (\<lambda>(i, j). g ! i ! j) (set (subgridCells (3 * bi) (3 * bj)))"
    proof (rule inj_onI)
      fix x y
      assume x: "x \<in> set (subgridCells (3 * bi) (3 * bj))"
        and y: "y \<in> set (subgridCells (3 * bi) (3 * bj))"
        and eq: "(case x of (i, j) \<Rightarrow> g ! i ! j) = (case y of (i, j) \<Rightarrow> g ! i ! j)"
      obtain r c where xr: "x = (r, c)" by (cases x)
      obtain tr tc where yt: "y = (tr, tc)" by (cases y)
      from x xr b have rc: "r < 9" "c < 9" "r div 3 = bi" "c div 3 = bj"
        by (auto simp: mem_subgridCells)
      from y yt rc have "y \<in> set (subgridCells r c)"
        by (simp add: mem_subgridCells)
      with L rc have "\<not> (g ! r ! c = g ! fst y ! snd y \<and> (r, c) \<noteq> y)"
        by blast
      with eq xr yt show "x = y" by simp
    qed
    then show "distinct (boxValues g (3 * bi) (3 * bj))"
      by (simp add: boxValues_subgridCells distinct_map distinct_subgridCells)
  qed
next
  assume R: ?R
  show ?L
  proof (intro allI impI ballI)
    fix r c t assume rc: "r < 9" "c < 9" and t: "t \<in> set (subgridCells r c)"
    from rc have b: "r div 3 < 3" "c div 3 < 3" by simp_all
    with R have "distinct (boxValues g (3 * (r div 3)) (3 * (c div 3)))" by blast
    then have inj: "inj_on (\<lambda>(i, j). g ! i ! j) (set (subgridCells r c))"
      by (simp add: boxValues_subgridCells distinct_map subgridCells_origin)
    have "(r, c) \<in> set (subgridCells r c)"
      by (simp add: mem_subgridCells)
    with inj t have "g ! r ! c = g ! fst t ! snd t \<Longrightarrow> (r, c) = t"
      by (auto simp: inj_on_def split_beta)
    then show "\<not> (g ! r ! c = g ! fst t ! snd t \<and> (r, c) \<noteq> t)" by blast
  qed
qed

lemma validateFullGrid_char:
  assumes "isGrid g"
  shows "validateFullGrid g =
     Inr ((\<forall>i<9. distinct (rowValues g i)) \<and> (\<forall>j<9. distinct (colValues g j))
          \<and> (\<forall>bi<3. \<forall>bj<3. distinct (boxValues g (3 * bi) (3 * bj))))"
proof -
  have rows: "list_ex (\<lambda>i. setSize (index g i) \<noteq> 9) [0..<9] = (\<not> (\<forall>i<9. distinct (rowValues g i)))"
    using assms
    by (auto simp: list_ex_iff index_def isGrid_length isGrid_rows setSize_distinct rowValues_def)
  have cols: "exitsEarly (\<lambda>column.
                 case columnValues g column [0..<9] of
                   Inl e \<Rightarrow> Inl e
                 | Inr tempArray \<Rightarrow> Inr (setSize (Some tempArray) \<noteq> 9)) [0..<9]
      = Inr (\<exists>j\<in>set [0..<9]. \<not> distinct (colValues g j))"
  proof (intro exitsEarly_Inr)
    fix j assume "j \<in> set [0..<9]"
    then have j: "j < 9" by simp
    have "length (colValues g j) = 9" by (simp add: colValues_def)
    then have "(setSize (Some (map Some (colValues g j))) \<noteq> 9) = (\<not> distinct (colValues g j))"
      by (simp add: setSize_distinct distinct_map)
    then show "(case columnValues g j [0..<9] of
                   Inl e \<Rightarrow> Inl e
                 | Inr tempArray \<Rightarrow> Inr (setSize (Some tempArray) \<noteq> 9))
        = Inr (\<not> distinct (colValues g j))"
      by (simp add: columnValues_isGrid [OF assms j])
  qed
  have boxes: "exitsEarly (clash g) subgridPairs
      = Inr (\<exists>p\<in>set subgridPairs.
               g ! fst (fst p) ! snd (fst p) = g ! fst (snd p) ! snd (snd p) \<and> fst p \<noteq> snd p)"
  proof (intro exitsEarly_Inr)
    fix p assume p: "p \<in> set subgridPairs"
    obtain r c tr tc where pp: "p = ((r, c), (tr, tc))"
      by (metis prod.collapse)
    with p have "r < 9" "c < 9" "(tr, tc) \<in> set (subgridCells r c)"
      by (simp_all add: set_subgridPairs)
    then show "clash g p
        = Inr (g ! fst (fst p) ! snd (fst p) = g ! fst (snd p) ! snd (snd p) \<and> fst p \<noteq> snd p)"
      using clash_isGrid [OF assms, of r c tr tc] pp by simp
  qed
  have box_iff: "(\<exists>p\<in>set subgridPairs.
               g ! fst (fst p) ! snd (fst p) = g ! fst (snd p) ! snd (snd p) \<and> fst p \<noteq> snd p)
      = (\<not> (\<forall>bi<3. \<forall>bj<3. distinct (boxValues g (3 * bi) (3 * bj))))"
    unfolding no_clash_iff [symmetric] bex_subgridPairs by simp
  show ?thesis
    unfolding validateFullGrid_def rows cols boxes box_iff
    by auto
qed

lemma nine_distinct: "length xs = 9 \<Longrightarrow> distinct xs \<longleftrightarrow> card (set xs) = 9"
  by (metis card_distinct distinct_card)

lemma length_boxValues: "length (boxValues g r c) = 9"
  by (simp add: boxValues_def)

text \<open>
  Claim C8. For every 9x9 grid containing only digits 1 to 9, \<open>validateFullGrid\<close>
  returns true if and only if each of the 9 rows holds 9 distinct values, each of the
  9 columns holds 9 distinct values, and each of the 9 boxes holds 9 distinct values.
\<close>

theorem validateFullGrid_iff:
  assumes "isFullGrid g"
  shows "validateFullGrid g =
     Inr ((\<forall>i<9. card (set (rowValues g i)) = 9)
          \<and> (\<forall>j<9. card (set (colValues g j)) = 9)
          \<and> (\<forall>bi<3. \<forall>bj<3. card (set (boxValues g (3 * bi) (3 * bj))) = 9))"
proof -
  have g: "isGrid g" using assms by (rule isFullGrid_isGrid)
  have "length (rowValues g i) = 9" if "i < 9" for i
    using g that by (simp add: rowValues_def isGrid_rows)
  then have rows: "(\<forall>i<9. distinct (rowValues g i)) = (\<forall>i<9. card (set (rowValues g i)) = 9)"
    by (simp add: nine_distinct)
  have cols: "distinct (colValues g j) = (card (set (colValues g j)) = 9)" for j
    by (rule nine_distinct) (simp add: colValues_def)
  have boxes: "distinct (boxValues g r c) = (card (set (boxValues g r c)) = 9)" for r c
    by (rule nine_distinct) (rule length_boxValues)
  show ?thesis
    unfolding validateFullGrid_char [OF g] rows cols boxes ..
qed

lemma isFullGrid_solvedGrid: "isFullGrid solvedGrid"
  by code_simp

lemma validateFullGrid_solvedGrid: "validateFullGrid solvedGrid = Inr True"
  by code_simp

theorem validateFullGrid_iff_witness:
  "isFullGrid solvedGrid \<and> validateFullGrid solvedGrid = Inr True
   \<and> card (set (boxValues solvedGrid 3 6)) = 9"
proof -
  have all: "\<forall>bi<3. \<forall>bj<3. card (set (boxValues solvedGrid (3 * bi) (3 * bj))) = 9"
    using validateFullGrid_iff [OF isFullGrid_solvedGrid] validateFullGrid_solvedGrid
    by simp
  have "(1::nat) < 3" "(2::nat) < 3" by simp_all
  with all have "card (set (boxValues solvedGrid (3 * 1) (3 * 2))) = 9"
    by blast
  then show ?thesis
    using isFullGrid_solvedGrid validateFullGrid_solvedGrid by simp
qed

section \<open>What getGridSolution returns\<close>

lemma tryNumbers_fuel:
  assumes solve: "\<And>n q. n \<in> set ns \<Longrightarrow>
      solve (setCell g r c (Num n)) q = Inl OutOfFuel \<or>
      solve (setCell g r c (Num n)) q =
        Inr (JUndefined, setCell g r c (Num n), lastSnapshot q (completions rest (setCell g r c (Num n))))"
    and len: "9 \<le> length g" and rc: "r < 9" "c < 9"
    and zero: "cellIs g r c 0 = Inr True"
  shows "tryNumbers solve r c ns g p = Inl OutOfFuel \<or>
     tryNumbers solve r c ns g p =
     Inr (g, lastSnapshot p (concat (map (\<lambda>n. if isValidPlacement g n r c = Inr True
                        then completions rest (setCell g r c (Num n)) else []) ns)))"
  using solve
proof (induction ns arbitrary: p)
  case Nil
  then show ?case by simp
next
  case (Cons n ns)
  from zero have undo: "setCell (setCell g r c (Num n)) r c (Num 0) = g"
    by (simp add: cellIs_True_iff setCell_restore)
  obtain b where b: "isValidPlacement g n r c = Inr b"
    using isValidPlacement_defined [OF len rc] by blast
  have IH: "tryNumbers solve r c ns g q = Inl OutOfFuel \<or> tryNumbers solve r c ns g q =
     Inr (g, lastSnapshot q (concat (map (\<lambda>n. if isValidPlacement g n r c = Inr True
                        then completions rest (setCell g r c (Num n)) else []) ns)))" for q
    using Cons.IH Cons.prems by simp
  show ?case
  proof (cases b)
    case True
    have "solve (setCell g r c (Num n)) p = Inl OutOfFuel \<or>
        solve (setCell g r c (Num n)) p =
        Inr (JUndefined, setCell g r c (Num n), lastSnapshot p (completions rest (setCell g r c (Num n))))"
      using Cons.prems by simp
    then show ?thesis
    proof
      assume "solve (setCell g r c (Num n)) p = Inl OutOfFuel"
      with b True show ?thesis by simp
    next
      assume "solve (setCell g r c (Num n)) p =
        Inr (JUndefined, setCell g r c (Num n), lastSnapshot p (completions rest (setCell g r c (Num n))))"
      with b True IH [of "lastSnapshot p (completions rest (setCell g r c (Num n)))"]
      show ?thesis
        by (auto simp: undo lastSnapshot_append)
    qed
  next
    case False
    with b IH [of p] show ?thesis by auto
  qed
qed

lemma solveGrid_fuel:
  "9 \<le> length g \<Longrightarrow>
   solveGrid fuel g p = Inl OutOfFuel \<or>
   solveGrid fuel g p = Inr (JUndefined, g, lastSnapshot p (solutions g))"
proof (induction fuel arbitrary: g p)
  case 0
  then show ?case by simp
next
  case (Suc fuel)
  show ?case
  proof (cases "empties g")
    case Nil
    with Suc.prems show ?thesis
      by (simp add: findEmpty_empties solutions_def lastSnapshot_def)
  next
    case (Cons rc rest)
    obtain r c where rc: "rc = (r, c)" by (cases rc)
    with Cons have e: "empties g = (r, c) # rest" by simp
    then have "(r, c) \<in> set (empties g)" by simp
    then have zero: "cellIs g r c 0 = Inr True" and bound: "r < 9" "c < 9"
      by (auto simp: empties_def set_positions)
    have call: "solveGrid fuel (setCell g r c (Num n)) q = Inl OutOfFuel \<or>
        solveGrid fuel (setCell g r c (Num n)) q =
        Inr (JUndefined, setCell g r c (Num n), lastSnapshot q (completions rest (setCell g r c (Num n))))"
      if "n \<in> set [1..9]" for n q
    proof -
      from that have "n \<noteq> 0" by auto
      then have e': "empties (setCell g r c (Num n)) = rest"
        by (rule empties_setCell [OF e])
      with Suc.IH [of "setCell g r c (Num n)" q] Suc.prems show ?thesis
        by (simp add: solutions_def)
    qed
    have loop: "tryNumbers (solveGrid fuel) r c [1..9] g p = Inl OutOfFuel \<or>
        tryNumbers (solveGrid fuel) r c [1..9] g p =
        Inr (g, lastSnapshot p (concat (map (\<lambda>n. if isValidPlacement g n r c = Inr True
                        then completions rest (setCell g r c (Num n)) else []) [1..9])))"
      by (rule tryNumbers_fuel [OF call Suc.prems bound zero])
    then show ?thesis
    proof
      assume out: "tryNumbers (solveGrid fuel) r c [1..9] g p = Inl OutOfFuel"
      show ?thesis
        apply (simp only: solveGrid.simps findEmpty_empties [OF Suc.prems] e)
        apply (simp only: list.case option.case sum.case prod.case)
        apply (subst out)
        apply simp
        done
    next
      assume ok: "tryNumbers (solveGrid fuel) r c [1..9] g p =
        Inr (g, lastSnapshot p (concat (map (\<lambda>n. if isValidPlacement g n r c = Inr True
                        then completions rest (setCell g r c (Num n)) else []) [1..9])))"
      show ?thesis
        apply (simp only: solveGrid.simps findEmpty_empties [OF Suc.prems] e solutions_def)
        apply (simp only: list.case option.case sum.case prod.case)
        apply (simp only: ok)
        apply simp
        done
    qed
  qed
qed

lemma isGrid_setCell:
  assumes "isGrid g" "digitIn 0 9 v"
  shows "isGrid (setCell g r c v)"
proof -
  have in_row: "x \<in> set (row[c := v]) \<Longrightarrow> x = v \<or> x \<in> set row" for x and row :: "jsnum list"
    using set_update_subset_insert [of row c v] by auto
  have "length row = 9 \<and> list_all (digitIn 0 9) row" if "row \<in> set (setCell g r c v)" for row
  proof -
    from that have "row = (g ! r)[c := v] \<and> r < length g \<or> row \<in> set g"
      unfolding setCell_def
      using set_update_subset_insert [of g r "(g ! r)[c := v]"]
      by (cases "r < length g") (auto simp: list_update_beyond)
    then show ?thesis
    proof
      assume a: "row = (g ! r)[c := v] \<and> r < length g"
      then have "g ! r \<in> set g" by simp
      with assms have old: "length (g ! r) = 9" "\<forall>x\<in>set (g ! r). digitIn 0 9 x"
        by (simp_all add: isGrid_def list_all_iff)
      have "digitIn 0 9 x" if "x \<in> set row" for x
        using in_row [of x "g ! r"] that a old(2) assms(2) by auto
      with a old(1) show ?thesis
        by (simp add: list_all_iff)
    next
      assume "row \<in> set g"
      with assms show ?thesis by (simp add: isGrid_def list_all_iff)
    qed
  qed
  with assms show ?thesis
    by (simp add: isGrid_def list_all_iff)
qed

lemma isGrid_no_empties:
  assumes "isGrid g" "empties g = []"
  shows "isFullGrid g"
proof -
  have "digitIn 1 9 x" if row: "row \<in> set g" and x: "x \<in> set row" for row x
  proof -
    from row obtain i where i: "i < length g" "row = g ! i"
      by (auto simp: in_set_conv_nth)
    from x obtain j where j: "j < length row" "x = row ! j"
      by (auto simp: in_set_conv_nth)
    from assms(1) row x have d: "digitIn 0 9 x" and len: "length g = 9" "length row = 9"
      by (simp_all add: isGrid_def list_all_iff)
    have "(i, j) \<in> set positions"
      using i j len by (simp add: set_positions)
    moreover have "(i, j) \<notin> set (empties g)"
      using assms(2) by simp
    ultimately have "cellIs g i j 0 \<noteq> Inr True"
      by (simp add: empties_def)
    with i j have "x \<noteq> Num 0"
      by (simp add: cellIs_True_iff)
    with d show ?thesis
      by (cases x) (auto simp: digitIn_def)
  qed
  with assms(1) show ?thesis
    by (simp add: isGrid_def isFullGrid_def list_all_iff)
qed

lemma completions_full:
  assumes "isGrid g" "set (empties g) \<subseteq> set ps" "set ps \<subseteq> set positions"
  shows "h \<in> set (completions ps g) \<Longrightarrow> isFullGrid h"
  using assms
proof (induction ps arbitrary: g)
  case Nil
  then show ?case by (simp add: isGrid_no_empties)
next
  case (Cons rc ps)
  obtain r c where rc: "rc = (r, c)" by (cases rc)
  from Cons.prems(1) rc obtain n where n: "n \<in> set [1..9]"
    and h: "h \<in> set (completions ps (setCell g r c (Num n)))"
    by (auto split: if_splits)
  from n have n0: "n \<noteq> 0" and nd: "digitIn 0 9 (Num n)"
    by (auto simp: digitIn_def)
  from Cons.prems(4) rc have "r < 9" "c < 9"
    by (auto simp: set_positions)
  with Cons.prems(2) have inb: "r < length g" "c < length (g ! r)"
    by (simp_all add: isGrid_length isGrid_rows)
  have "set (empties (setCell g r c (Num n))) \<subseteq> set ps"
  proof
    fix x assume x: "x \<in> set (empties (setCell g r c (Num n)))"
    obtain r' c' where x': "x = (r', c')" by (cases x)
    with x n0 have "x \<noteq> (r, c)" "x \<in> set (empties g)"
      by (auto simp: empties_def cellIs_setCell [OF inb] split: if_splits)
    with Cons.prems(3) rc show "x \<in> set ps" by auto
  qed
  moreover have "isGrid (setCell g r c (Num n))"
    using Cons.prems(2) nd by (rule isGrid_setCell)
  moreover have "set ps \<subseteq> set positions"
    using Cons.prems(4) by simp
  ultimately show ?case
    using Cons.IH [OF h] by blast
qed

lemma solutions_full: "isGrid g \<Longrightarrow> h \<in> set (solutions g) \<Longrightarrow> isFullGrid h"
  unfolding solutions_def
  by (rule completions_full [of g "empties g"]) (auto simp: empties_def)

lemma getGridSolution_state:
  assumes "isGrid g" "getGridSolution fuel g p = Inr (v, g', p')"
  shows "g' = g \<and> p' = lastSnapshot p (solutions g)"
proof -
  from assms(2) obtain v0 where "solveGrid fuel g p = Inr (v0, g', p')"
    by (auto simp: getGridSolution_def Let_def split: sum.splits option.splits if_splits)
  with solveGrid_fuel [of g fuel p] assms(1) show ?thesis
    by (simp add: isGrid_length)
qed

lemma getGridSolution_JGrid:
  assumes "getGridSolution fuel g p = Inr (JGrid s, g', p')"
  shows "\<exists>str. p' = Some str \<and> s = gridPrimitiveToArray str \<and> validateFullGrid s = Inr True"
  using assms
  by (auto simp: getGridSolution_def Let_def split: sum.splits option.splits if_splits)

lemma reachable_full:
  "reachable p \<Longrightarrow> p = None \<or> (\<exists>h. isFullGrid h \<and> p = Some (toString h))"
proof (induction rule: reachable.induct)
  case fresh
  then show ?case by simp
next
  case (call p g fuel v g' p')
  from call.hyps(2,3) have p': "p' = lastSnapshot p (solutions g)"
    by (simp add: getGridSolution_state)
  show ?case
  proof (cases "solutions g = []")
    case True
    with p' call.IH show ?thesis by simp
  next
    case False
    then have "last (solutions g) \<in> set (solutions g)" by simp
    with call.hyps(2) have "isFullGrid (last (solutions g))"
      by (simp add: solutions_full)
    with p' False show ?thesis
      by (auto simp: lastSnapshot_def)
  qed
qed

lemma count_list_distinct: "distinct xs \<Longrightarrow> x \<in> set xs \<Longrightarrow> count_list xs x = 1"
  by (induction xs) auto

lemma eachDigitOnce_distinct:
  assumes "distinct vs" "length vs = 9" "\<And>x. x \<in> set vs \<Longrightarrow> digitIn 1 9 x"
  shows "eachDigitOnce vs"
proof -
  have sub: "set vs \<subseteq> Num ` {1..9}"
  proof
    fix x assume "x \<in> set vs"
    then have "digitIn 1 9 x" by (rule assms(3))
    then show "x \<in> Num ` {1..9}"
      by (cases x) (auto simp: digitIn_def)
  qed
  have "card (Num ` {1..9::int}) = 9"
    by (simp add: card_image inj_on_def)
  moreover have "card (set vs) = 9"
    using assms(1,2) by (simp add: distinct_card)
  ultimately have "set vs = Num ` {1..9}"
    using sub by (intro card_subset_eq) simp_all
  then have "Num d \<in> set vs" if "d \<in> set [1..9]" for d
    using that by simp
  with assms(1) show ?thesis
    by (simp add: eachDigitOnce_def list_all_iff count_list_distinct del: upto.simps)
qed

lemma isFullGrid_cell:
  assumes "isFullGrid g" "i < 9" "j < 9"
  shows "digitIn 1 9 (g ! i ! j)"
proof -
  from assms have "g ! i \<in> set g" "length (g ! i) = 9"
    by (simp_all add: isFullGrid_def list_all_length)
  with assms show ?thesis
    by (simp add: isFullGrid_def list_all_length)
qed

lemma validated_isSolved:
  assumes full: "isFullGrid g" and ok: "validateFullGrid g = Inr True"
  shows "isSolved g"
proof -
  have g: "isGrid g" using full by (rule isFullGrid_isGrid)
  from ok have d: "\<forall>i<9. distinct (rowValues g i)" "\<forall>j<9. distinct (colValues g j)"
    "\<forall>bi<3. \<forall>bj<3. distinct (boxValues g (3 * bi) (3 * bj))"
    unfolding validateFullGrid_char [OF g] by simp_all
  have rows: "eachDigitOnce (rowValues g i)" if i: "i < 9" for i
  proof (rule eachDigitOnce_distinct)
    show "distinct (rowValues g i)" using d(1) that by simp
    show "length (rowValues g i) = 9" using g that by (simp add: rowValues_def isGrid_rows)
    fix x assume "x \<in> set (rowValues g i)"
    then obtain j where "j < 9" "x = g ! i ! j"
      using g i by (auto simp: rowValues_def in_set_conv_nth isGrid_rows)
    with full that show "digitIn 1 9 x" by (simp add: isFullGrid_cell)
  qed
  have cols: "eachDigitOnce (colValues g j)" if "j < 9" for j
  proof (rule eachDigitOnce_distinct)
    show "distinct (colValues g j)" using d(2) that by simp
    show "length (colValues g j) = 9" by (simp add: colValues_def)
    fix x assume "x \<in> set (colValues g j)"
    then obtain i where "i < 9" "x = g ! i ! j"
      by (auto simp: colValues_def)
    with full that show "digitIn 1 9 x" by (simp add: isFullGrid_cell)
  qed
  have boxes: "eachDigitOnce (boxValues g (3 * bi) (3 * bj))" if "bi < 3" "bj < 3" for bi bj
  proof (rule eachDigitOnce_distinct)
    show "distinct (boxValues g (3 * bi) (3 * bj))" using d(3) that by simp
    show "length (boxValues g (3 * bi) (3 * bj)) = 9" by (rule length_boxValues)
    fix x assume "x \<in> set (boxValues g (3 * bi) (3 * bj))"
    then obtain i j where ij: "(i, j) \<in> set (subgridCells (3 * bi) (3 * bj))" "x = g ! i ! j"
      by (auto simp: boxValues_subgridCells)
    from that have "3 * bi < 9" "3 * bj < 9" by simp_all
    then have "i < 9" "j < 9"
      using subgridCells_bound [OF _ _ ij(1)] by simp_all
    with full ij show "digitIn 1 9 x" by (simp add: isFullGrid_cell)
  qed
  from full rows cols boxes show ?thesis
    by (simp add: isSolved_def list_all_iff)
qed

text \<open>
  Claim C5. Every value other than \<open>false\<close> that \<open>getGridSolution\<close> returns is a
  solved grid: 9 rows of 9 digits from 1 to 9, no 0 anywhere, every row, every column
  and every 3x3 box holding each of the digits 1 to 9 exactly once. This holds for
  every call on a 9x9 grid of digits, whatever earlier calls on such grids have left
  in \<open>gridPrimitive\<close>.
\<close>

theorem getGridSolution_solved:
  assumes "reachable p" "isGrid g" "getGridSolution fuel g p = Inr (JGrid s, g', p')"
  shows "isSolved s"
proof -
  from assms(3) obtain str where str: "p' = Some str" "s = gridPrimitiveToArray str"
    and ok: "validateFullGrid s = Inr True"
    using getGridSolution_JGrid by blast
  have "reachable p'" using assms by (rule reachable.call)
  with str(1) obtain h where h: "isFullGrid h" "str = toString h"
    using reachable_full [of p'] by auto
  with str(2) have "s = h"
    by (simp add: gridPrimitiveToArray_toString isFullGrid_isGrid)
  with h(1) ok show ?thesis
    by (simp add: validated_isSolved)
qed

lemma getGridSolution_oneEmptyGrid:
  "getGridSolution 82 oneEmptyGrid None =
     Inr (JGrid solvedGrid, oneEmptyGrid, Some (toString solvedGrid))"
  by code_simp

theorem getGridSolution_solved_witness:
  "reachable None \<and> isGrid oneEmptyGrid
   \<and> getGridSolution 82 oneEmptyGrid None =
       Inr (JGrid solvedGrid, oneEmptyGrid, Some (toString solvedGrid))
   \<and> isSolved solvedGrid"
  using getGridSolution_solved [OF reachable.fresh isGrid_oneEmptyGrid getGridSolution_oneEmptyGrid]
  by (simp add: reachable.fresh isGrid_oneEmptyGrid getGridSolution_oneEmptyGrid)

section \<open>The global result slot across calls\<close>

text \<open>
  In a process that has not solved anything yet, \<open>gridPrimitive\<close> is unset and the
  result of \<open>getGridSolution\<close> depends on its argument only: a grid the search cannot
  complete gives \<open>false\<close>, and a returned solution keeps every clue of the input.
\<close>

lemma getGridSolution_fresh_unsolvable:
  assumes "isGrid g" "emptyCount g < fuel" "solutions g = []"
  shows "getGridSolution fuel g None = Inr (JBool False, g, None)"
  using assms
  by (simp add: getGridSolution_def solveGrid_solutions isGrid_length)

lemma setCell_other:
  "(r, c) \<noteq> (r', c') \<Longrightarrow> setCell g r' c' v ! r ! c = g ! r ! c"
  by (cases "r' < length g") (auto simp: setCell_def nth_list_update list_update_beyond)

lemma completions_keep:
  "h \<in> set (completions ps g) \<Longrightarrow> (r, c) \<notin> set ps \<Longrightarrow> h ! r ! c = g ! r ! c"
proof (induction ps arbitrary: g)
  case Nil
  then show ?case by simp
next
  case (Cons x ps)
  obtain r' c' where x: "x = (r', c')" by (cases x)
  with Cons.prems obtain n where "h \<in> set (completions ps (setCell g r' c' (Num n)))"
    by (auto split: if_splits)
  with Cons.IH Cons.prems(2) have "h ! r ! c = setCell g r' c' (Num n) ! r ! c"
    by simp
  with Cons.prems(2) x show ?case
    by (simp add: setCell_other)
qed

lemma getGridSolution_fresh_keeps_clues:
  assumes g: "isGrid g" and res: "getGridSolution fuel g None = Inr (JGrid s, g', p')"
    and rc: "r < 9" "c < 9" and clue: "g ! r ! c \<noteq> Num 0"
  shows "s ! r ! c = g ! r ! c"
proof -
  from res obtain str where str: "p' = Some str" "s = gridPrimitiveToArray str"
    using getGridSolution_JGrid by blast
  from g res have "p' = lastSnapshot None (solutions g)"
    by (simp add: getGridSolution_state)
  with str(1) have ne: "solutions g \<noteq> []" and s: "str = toString (last (solutions g))"
    by (auto simp: lastSnapshot_def split: if_splits)
  from ne have mem: "last (solutions g) \<in> set (solutions g)" by simp
  with g have "isFullGrid (last (solutions g))" by (simp add: solutions_full)
  with str(2) s have "s = last (solutions g)"
    by (simp add: gridPrimitiveToArray_toString isFullGrid_isGrid)
  moreover have "(r, c) \<notin> set (empties g)"
    using clue by (simp add: empties_def cellIs_True_iff)
  ultimately show ?thesis
    using mem completions_keep [of "last (solutions g)" "empties g" g r c]
    by (simp add: solutions_def)
qed

text \<open>
  Claim C3 is what the comments of solver.js promise, and the code breaks it:
  \<open>gridPrimitive\<close> is never reset. After one call has recorded a solution, a call on
  \<open>stuckGrid\<close>, which the search cannot complete and for which a fresh process
  answers \<open>false\<close>, returns the solution of the earlier call.
\<close>

theorem getGridSolution_stale_result:
  "getGridSolution 82 solvedGrid None =
     Inr (JGrid solvedGrid, solvedGrid, Some (toString solvedGrid))
   \<and> solutions stuckGrid = []
   \<and> getGridSolution 82 stuckGrid None = Inr (JBool False, stuckGrid, None)
   \<and> getGridSolution 82 stuckGrid (Some (toString solvedGrid)) =
       Inr (JGrid solvedGrid, stuckGrid, Some (toString solvedGrid))"
proof -
  have "getGridSolution 82 solvedGrid None =
     Inr (JGrid solvedGrid, solvedGrid, Some (toString solvedGrid))"
    by code_simp
  moreover have "getGridSolution 82 stuckGrid None = Inr (JBool False, stuckGrid, None)"
    by code_simp
  moreover have "getGridSolution 82 stuckGrid (Some (toString solvedGrid)) =
       Inr (JGrid solvedGrid, stuckGrid, Some (toString solvedGrid))"
    by code_simp
  ultimately show ?thesis
    using solutions_stuckGrid by simp
qed

text \<open>
  Claim C6 fails for the same reason. After a call on \<open>twoSolutionGrid\<close>, the call on
  \<open>stuckGrid\<close> returns a grid with 3 at (0,1), where its input has the clue 5.
\<close>

theorem getGridSolution_clue_lost:
  "getGridSolution 82 twoSolutionGrid None =
     Inr (JGrid secondSolution, twoSolutionGrid, Some (toString secondSolution))
   \<and> getGridSolution 82 stuckGrid (Some (toString secondSolution)) =
       Inr (JGrid secondSolution, stuckGrid, Some (toString secondSolution))
   \<and> cell stuckGrid 0 1 = Inr (Some (Num 5))
   \<and> cell secondSolution 0 1 = Inr (Some (Num 3))"
proof -
  have "getGridSolution 82 twoSolutionGrid None =
     Inr (JGrid secondSolution, twoSolutionGrid, Some (toString secondSolution))"
    by code_simp
  moreover have "getGridSolution 82 stuckGrid (Some (toString secondSolution)) =
       Inr (JGrid secondSolution, stuckGrid, Some (toString secondSolution))"
    by code_simp
  moreover have "cell stuckGrid 0 1 = Inr (Some (Num 5))"
    by code_simp
  moreover have "cell secondSolution 0 1 = Inr (Some (Num 3))"
    by code_simp
  ultimately show ?thesis by simp
qed

end
